theory Spec2Isabelle
  imports Complex_Main
begin

section \<open>Errors\<close>

text \<open>
  The exceptions the functions of \<^verbatim>\<open>utils.py\<close> can raise: integer division by zero
  in \<^verbatim>\<open>split_size\<close>, the \<^verbatim>\<open>assert\<close> on the shape of the masses, and the
  conversion of rows of unequal length to an array.
\<close>

datatype py_error = ZeroDivisionError | AssertionError | ValueError

section \<open>The partitioner\<close>

text \<open>
  \<^verbatim>\<open>return (N_parts // N_chunks) + int((N_parts % N_chunks) > i)\<close>

  Python integers are unbounded, \<^verbatim>\<open>//\<close> rounds towards minus infinity and \<^verbatim>\<open>%\<close>
  takes the sign of the divisor, as \<open>div\<close> and \<open>mod\<close> on \<open>int\<close> do. Both raise
  on a zero divisor; \<^verbatim>\<open>int\<close> of a boolean is 0 or 1.
\<close>

definition split_size :: "int \<Rightarrow> int \<Rightarrow> int \<Rightarrow> py_error + int" where
  "split_size N_parts N_chunks i =
     (if N_chunks = 0 then Inl ZeroDivisionError
      else Inr ((N_parts div N_chunks) + of_bool ((N_parts mod N_chunks) > i)))"

section \<open>Floating-point values\<close>

text \<open>
  The arrays hold NumPy \<^verbatim>\<open>float64\<close> values, the binary64 format of IEEE 754. A
  value is a real number or one of the three special values. Addition, subtraction,
  multiplication, division and square root are correctly rounded: the result is the
  exact real result rounded to the nearest \<^verbatim>\<open>float64\<close>, ties to even, with overflow
  to an infinity and gradual underflow to zero. Division by zero gives an infinity or
  a NaN (NumPy warns, it does not raise). The sign of a zero is not modelled: the only
  divisor in the program is a square root of a sum of squares, which is never the
  negative zero.
\<close>

datatype npfloat = Fin real | PInf | NInf | NaN

text \<open>Rounding a real number to the nearest integer, ties to the even one.\<close>

definition round_even :: "real \<Rightarrow> int" where
  "round_even x =
     (let f = \<lfloor>x\<rfloor> in
      if x - of_int f < 1 / 2 then f
      else if 1 / 2 < x - of_int f then f + 1
      else if even f then f else f + 1)"

text \<open>
  The spacing of the \<^verbatim>\<open>float64\<close> values around \<open>x \<noteq> 0\<close>: 53 significant bits, and
  the least exponent \<open>-1022\<close>, below which the values are subnormal.
\<close>

definition ulp64 :: "real \<Rightarrow> real" where
  "ulp64 x = 2 powr (of_int (max \<lfloor>log 2 \<bar>x\<bar>\<rfloor> (- 1022)) - 52)"

text \<open>
  The \<^verbatim>\<open>float64\<close> nearest to a real number. A result of magnitude \<open>2 ^ 1024\<close> or more
  overflows to an infinity.
\<close>

definition round64 :: "real \<Rightarrow> npfloat" where
  "round64 x =
     (if x = 0 then Fin 0
      else let y = of_int (round_even (x / ulp64 x)) * ulp64 x in
        if 2 ^ 1024 \<le> \<bar>y\<bar> then (if 0 < x then PInf else NInf) else Fin y)"

fun is_finite :: "npfloat \<Rightarrow> bool" where
  "is_finite (Fin a) = True"
| "is_finite PInf = False"
| "is_finite NInf = False"
| "is_finite NaN = False"

fun fneg :: "npfloat \<Rightarrow> npfloat" where
  "fneg (Fin a) = Fin (- a)"
| "fneg PInf = NInf"
| "fneg NInf = PInf"
| "fneg NaN = NaN"

fun fadd :: "npfloat \<Rightarrow> npfloat \<Rightarrow> npfloat" where
  "fadd (Fin a) (Fin b) = round64 (a + b)"
| "fadd (Fin a) PInf = PInf"
| "fadd (Fin a) NInf = NInf"
| "fadd PInf (Fin b) = PInf"
| "fadd PInf PInf = PInf"
| "fadd NInf (Fin b) = NInf"
| "fadd NInf NInf = NInf"
| "fadd PInf NInf = NaN"
| "fadd NInf PInf = NaN"
| "fadd NaN y = NaN"
| "fadd x NaN = NaN"

definition fsub :: "npfloat \<Rightarrow> npfloat \<Rightarrow> npfloat" where
  "fsub x y = fadd x (fneg y)"

fun fmul :: "npfloat \<Rightarrow> npfloat \<Rightarrow> npfloat" where
  "fmul (Fin a) (Fin b) = round64 (a * b)"
| "fmul (Fin a) PInf = (if a = 0 then NaN else if 0 < a then PInf else NInf)"
| "fmul (Fin a) NInf = (if a = 0 then NaN else if 0 < a then NInf else PInf)"
| "fmul PInf (Fin b) = (if b = 0 then NaN else if 0 < b then PInf else NInf)"
| "fmul NInf (Fin b) = (if b = 0 then NaN else if 0 < b then NInf else PInf)"
| "fmul PInf PInf = PInf"
| "fmul PInf NInf = NInf"
| "fmul NInf PInf = NInf"
| "fmul NInf NInf = PInf"
| "fmul NaN y = NaN"
| "fmul x NaN = NaN"

fun fdiv :: "npfloat \<Rightarrow> npfloat \<Rightarrow> npfloat" where
  "fdiv (Fin a) (Fin b) =
     (if b = 0 then (if a = 0 then NaN else if 0 < a then PInf else NInf)
      else round64 (a / b))"
| "fdiv (Fin a) PInf = Fin 0"
| "fdiv (Fin a) NInf = Fin 0"
| "fdiv PInf (Fin b) = (if 0 \<le> b then PInf else NInf)"
| "fdiv NInf (Fin b) = (if 0 \<le> b then NInf else PInf)"
| "fdiv PInf PInf = NaN"
| "fdiv PInf NInf = NaN"
| "fdiv NInf PInf = NaN"
| "fdiv NInf NInf = NaN"
| "fdiv NaN y = NaN"
| "fdiv x NaN = NaN"

fun fsqrt :: "npfloat \<Rightarrow> npfloat" where
  "fsqrt (Fin a) = (if a < 0 then NaN else round64 (sqrt a))"
| "fsqrt PInf = PInf"
| "fsqrt NInf = NaN"
| "fsqrt NaN = NaN"

text \<open>\<^verbatim>\<open>x**2\<close> and \<^verbatim>\<open>x**2.\<close>: the square.\<close>

definition fsquare :: "npfloat \<Rightarrow> npfloat" where
  "fsquare x = fmul x x"

section \<open>Arrays\<close>

text \<open>
  An \<open>N \<times> d\<close> array is the list of its \<open>N\<close> rows. \<^verbatim>\<open>np.array(x).astype(float)\<close>
  raises \<^verbatim>\<open>ValueError\<close> when the rows do not all have one length. The masses are a
  list of scalars, so that the shape of their array is \<open>(length mass,)\<close>.
\<close>

definition rectangular :: "'a list list \<Rightarrow> bool" where
  "rectangular xss = (\<forall>xs \<in> set xss. \<forall>ys \<in> set xss. length xs = length ys)"

definition np_array :: "npfloat list list \<Rightarrow> py_error + npfloat list list" where
  "np_array xss = (if rectangular xss then Inr xss else Inl ValueError)"

text \<open>
  \<^verbatim>\<open>np.sum\<close> adds all the elements of an array, starting from 0. The elements are
  added in index order; NumPy may add a long array in another order, which is not
  modelled.
\<close>

definition np_sum :: "npfloat list \<Rightarrow> npfloat" where
  "np_sum xs = foldl fadd (Fin 0) xs"

section \<open>The energy evaluator\<close>

text \<open>\<^verbatim>\<open>r = np.sqrt(np.sum((pos[i] - pos[j])**2))\<close>\<close>

definition distance :: "npfloat list \<Rightarrow> npfloat list \<Rightarrow> npfloat" where
  "distance p q = fsqrt (np_sum (map fsquare (map2 fsub p q)))"

text \<open>
  The inner loop of \<^verbatim>\<open>compute_potential_energy\<close>, for one \<open>i\<close>:
  \<^verbatim>\<open>
  for j in range(i+1, N_part):
      r = np.sqrt(np.sum((pos[i] - pos[j])**2))
      U -= G * mass[i] * mass[j] / r
  \<close>
\<close>

definition potential_row ::
  "npfloat list list \<Rightarrow> npfloat list \<Rightarrow> npfloat \<Rightarrow> nat \<Rightarrow> npfloat \<Rightarrow> npfloat" where
  "potential_row pos mass G i U0 =
     foldl (\<lambda>U j. fsub U (fdiv (fmul (fmul G (mass ! i)) (mass ! j))
                              (distance (pos ! i) (pos ! j))))
           U0 [Suc i..<length pos]"

text \<open>
  \<^verbatim>\<open>
  pos = np.array(pos).astype(float)
  mass = np.array(mass).astype(float)
  N_part = pos.shape[0]
  assert mass.shape == (N_part,)
  U = 0.
  for i in range(N_part): ...
  return U
  \<close>
\<close>

definition compute_potential_energy ::
  "npfloat list list \<Rightarrow> npfloat list \<Rightarrow> npfloat \<Rightarrow> py_error + npfloat" where
  "compute_potential_energy pos mass G =
     (case np_array pos of
        Inl e \<Rightarrow> Inl e
      | Inr pos' \<Rightarrow>
          if length mass \<noteq> length pos' then Inl AssertionError
          else Inr (foldl (\<lambda>U i. potential_row pos' mass G i U) (Fin 0) [0..<length pos']))"

text \<open>
  \<^verbatim>\<open>
  vel = np.array(vel).astype(float)
  mass = np.array(mass).astype(float)
  N_part = vel.shape[0]
  assert mass.shape == (N_part,)
  return np.sum(vel.T**2. * mass) * 0.5
  \<close>
  \<^verbatim>\<open>vel.T\<close> has one row per coordinate; the product with \<^verbatim>\<open>mass\<close> multiplies each
  of these rows with the masses, element by element.
\<close>

definition compute_kinetic_energy ::
  "npfloat list list \<Rightarrow> npfloat list \<Rightarrow> py_error + npfloat" where
  "compute_kinetic_energy vel mass =
     (case np_array vel of
        Inl e \<Rightarrow> Inl e
      | Inr vel' \<Rightarrow>
          if length mass \<noteq> length vel' then Inl AssertionError
          else Inr (fmul (np_sum (concat (map (\<lambda>row. map2 fmul (map fsquare row) mass)
                                              (transpose vel'))))
                         (Fin (1 / 2))))"

text \<open>
  \<^verbatim>\<open>return compute_potential_energy(pos, mass, G=G) + compute_kinetic_energy(vel, mass)\<close>:
  the potential energy is evaluated first, and an exception of either call ends the call.
\<close>

definition compute_energy ::
  "npfloat list list \<Rightarrow> npfloat list list \<Rightarrow> npfloat list \<Rightarrow> npfloat
     \<Rightarrow> py_error + npfloat" where
  "compute_energy pos vel mass G =
     (case compute_potential_energy pos mass G of
        Inl e \<Rightarrow> Inl e
      | Inr U \<Rightarrow>
          (case compute_kinetic_energy vel mass of
             Inl e \<Rightarrow> Inl e
           | Inr K \<Rightarrow> Inr (fadd U K)))"

section \<open>The formulas of the specification\<close>









section \<open>Properties of the partitioner\<close>

lemma split_size_Inr:
  "N_chunks \<noteq> 0 \<Longrightarrow>
   split_size N_parts N_chunks i =
     Inr (N_parts div N_chunks + of_bool (i < N_parts mod N_chunks))"
  by (simp add: split_size_def)

lemma card_below_int:
  fixes r c :: int
  assumes "0 \<le> r" "r \<le> c"
  shows "card ({0..<c} \<inter> {i. i < r}) = nat r"
proof -
  have "{0..<c} \<inter> {i. i < r} = {0..<r}"
    using assms by auto
  then show ?thesis by simp
qed

lemma sum_bonus:
  fixes r c :: int
  assumes "0 \<le> r" "r \<le> c"
  shows "(\<Sum>i = 0..<c. of_bool (i < r)) = r"
proof -
  have "(\<Sum>i = 0..<c. (of_bool (i < r) :: int)) = int (card ({0..<c} \<inter> {i. i < r}))"
    by simp
  also have "\<dots> = r"
    using assms by (simp add: card_below_int)
  finally show ?thesis .
qed

lemma sum_split_size:
  fixes N_parts N_chunks :: int
  assumes "1 \<le> N_chunks"
  shows "(\<Sum>i = 0..<N_chunks. projr (split_size N_parts N_chunks i)) = N_parts"
proof -
  let ?q = "N_parts div N_chunks" and ?r = "N_parts mod N_chunks"
  have r: "0 \<le> ?r" "?r \<le> N_chunks"
    using assms by (simp_all add: less_imp_le)
  have "(\<Sum>i = 0..<N_chunks. projr (split_size N_parts N_chunks i))
      = (\<Sum>i = 0..<N_chunks. ?q + of_bool (i < ?r))"
    using assms by (simp add: split_size_Inr)
  also have "\<dots> = (\<Sum>i = 0..<N_chunks. ?q) + (\<Sum>i = 0..<N_chunks. of_bool (i < ?r))"
    by (rule sum.distrib)
  also have "\<dots> = (\<Sum>i = 0..<N_chunks. ?q) + ?r"
    using r by (simp only: sum_bonus)
  also have "\<dots> = N_chunks * ?q + ?r"
    using assms by simp
  also have "\<dots> = N_parts"
    by simp
  finally show ?thesis .
qed

text \<open>
  C1. Partition completeness: for \<open>N_parts \<ge> 0\<close> and \<open>N_chunks \<ge> 1\<close> no call
  raises, and the sizes of the chunks \<open>0, \<dots>, N_chunks - 1\<close> add up to exactly
  \<open>N_parts\<close>. In particular \<open>split_size 0 5 0\<close> is 0, and every chunk of an empty
  partition gets 0.
\<close>

theorem split_size_complete:
  assumes "0 \<le> N_parts" and "1 \<le> N_chunks"
  shows "(\<forall>i. \<exists>k. split_size N_parts N_chunks i = Inr k)
       \<and> (\<Sum>i = 0..<N_chunks. projr (split_size N_parts N_chunks i)) = N_parts
       \<and> split_size 0 5 0 = Inr 0
       \<and> (\<forall>i. 0 \<le> i \<and> i < N_chunks \<longrightarrow> split_size 0 N_chunks i = Inr 0)"
proof -
  have "\<forall>i. \<exists>k. split_size N_parts N_chunks i = Inr k"
    using assms by (simp add: split_size_Inr)
  moreover have "(\<Sum>i = 0..<N_chunks. projr (split_size N_parts N_chunks i)) = N_parts"
    using assms by (rule_tac sum_split_size)
  moreover have "split_size 0 5 0 = Inr 0"
    by (simp add: split_size_def)
  moreover have "\<forall>i. 0 \<le> i \<and> i < N_chunks \<longrightarrow> split_size 0 N_chunks i = Inr 0"
    using assms by (simp add: split_size_def)
  ultimately show ?thesis by blast
qed

theorem split_size_complete_witness:
  "(0::int) \<le> 7 \<and> (1::int) \<le> 3
   \<and> (\<Sum>i = 0..<3. projr (split_size 7 3 i)) = 7
   \<and> split_size 0 3 2 = Inr 0"
  using split_size_complete [of 7 3] by simp

lemma card_bonus_chunks:
  fixes N_parts N_chunks :: int
  assumes "1 \<le> N_chunks"
  shows "card {i. 0 \<le> i \<and> i < N_chunks
                \<and> split_size N_parts N_chunks i = Inr (N_parts div N_chunks + 1)}
       = nat (N_parts mod N_chunks)"
proof -
  let ?r = "N_parts mod N_chunks"
  have r: "0 \<le> ?r" "?r < N_chunks"
    using assms by simp_all
  have "{i. 0 \<le> i \<and> i < N_chunks
            \<and> split_size N_parts N_chunks i = Inr (N_parts div N_chunks + 1)} = {0..<?r}"
    using assms r by (auto simp: split_size_Inr)
  then show ?thesis by simp
qed

text \<open>
  C2. Partition fairness: for \<open>N_parts \<ge> 0\<close> and \<open>N_chunks \<ge> 1\<close>, every chunk index
  in \<open>[0, N_chunks)\<close> receives the floor \<open>N_parts div N_chunks\<close> or the floor plus one;
  the first \<open>N_parts mod N_chunks\<close> indices receive the floor plus one and all later
  ones the floor, so exactly \<open>N_parts mod N_chunks\<close> chunks carry one particle of the
  remainder; any two chunk sizes differ by at most 1.
\<close>

theorem split_size_fair:
  assumes "0 \<le> N_parts" and "1 \<le> N_chunks"
  shows "(\<forall>i. 0 \<le> i \<and> i < N_chunks \<longrightarrow>
            split_size N_parts N_chunks i = Inr (N_parts div N_chunks)
          \<or> split_size N_parts N_chunks i = Inr (N_parts div N_chunks + 1))
       \<and> (\<forall>i. 0 \<le> i \<and> i < N_parts mod N_chunks \<longrightarrow>
            split_size N_parts N_chunks i = Inr (N_parts div N_chunks + 1))
       \<and> (\<forall>i. N_parts mod N_chunks \<le> i \<and> i < N_chunks \<longrightarrow>
            split_size N_parts N_chunks i = Inr (N_parts div N_chunks))
       \<and> card {i. 0 \<le> i \<and> i < N_chunks
                  \<and> split_size N_parts N_chunks i = Inr (N_parts div N_chunks + 1)}
           = nat (N_parts mod N_chunks)
       \<and> (\<forall>i j. 0 \<le> i \<and> i < N_chunks \<and> 0 \<le> j \<and> j < N_chunks \<longrightarrow>
            \<bar>projr (split_size N_parts N_chunks i) - projr (split_size N_parts N_chunks j)\<bar> \<le> 1)"
proof -
  have nz: "N_chunks \<noteq> 0"
    using assms by simp
  have "\<forall>i. 0 \<le> i \<and> i < N_chunks \<longrightarrow>
            split_size N_parts N_chunks i = Inr (N_parts div N_chunks)
          \<or> split_size N_parts N_chunks i = Inr (N_parts div N_chunks + 1)"
    using nz by (simp add: split_size_Inr)
  moreover have "\<forall>i. 0 \<le> i \<and> i < N_parts mod N_chunks \<longrightarrow>
            split_size N_parts N_chunks i = Inr (N_parts div N_chunks + 1)"
    using nz by (simp add: split_size_Inr)
  moreover have "\<forall>i. N_parts mod N_chunks \<le> i \<and> i < N_chunks \<longrightarrow>
            split_size N_parts N_chunks i = Inr (N_parts div N_chunks)"
    using nz by (simp add: split_size_Inr)
  moreover have "card {i. 0 \<le> i \<and> i < N_chunks
                  \<and> split_size N_parts N_chunks i = Inr (N_parts div N_chunks + 1)}
           = nat (N_parts mod N_chunks)"
    using assms(2) by (rule card_bonus_chunks)
  moreover have "\<forall>i j. 0 \<le> i \<and> i < N_chunks \<and> 0 \<le> j \<and> j < N_chunks \<longrightarrow>
            \<bar>projr (split_size N_parts N_chunks i) - projr (split_size N_parts N_chunks j)\<bar> \<le> 1"
    using nz by (simp add: split_size_Inr)
  ultimately show ?thesis by blast
qed

theorem split_size_fair_witness:
  "(0::int) \<le> 7 \<and> (1::int) \<le> 3
   \<and> split_size 7 3 0 = Inr 3 \<and> split_size 7 3 1 = Inr 2 \<and> split_size 7 3 2 = Inr 2
   \<and> \<bar>projr (split_size 7 3 0) - projr (split_size 7 3 2)\<bar> \<le> 1"
  using split_size_fair [of 7 3] by simp

text \<open>
  C3. The chunk size formula: for \<open>N_parts \<ge> 0\<close>, \<open>N_chunks \<ge> 1\<close> and a chunk index
  \<open>i \<ge> 0\<close>, \<open>split_size\<close> returns \<open>floor (N_parts / N_chunks) + 1\<close> if
  \<open>N_parts mod N_chunks > i\<close> and \<open>floor (N_parts / N_chunks)\<close> otherwise; the two
  examples of the docstring give 91 and 90.
\<close>

theorem split_size_formula:
  assumes "0 \<le> N_parts" and "1 \<le> N_chunks" and "0 \<le> i"
  shows "split_size N_parts N_chunks i =
           Inr (if N_parts mod N_chunks > i then \<lfloor>real_of_int N_parts / real_of_int N_chunks\<rfloor> + 1
                else \<lfloor>real_of_int N_parts / real_of_int N_chunks\<rfloor>)
       \<and> split_size 1000 11 0 = Inr 91
       \<and> split_size 1000 11 10 = Inr 90"
proof -
  have "\<lfloor>real_of_int N_parts / real_of_int N_chunks\<rfloor> = N_parts div N_chunks"
    by (simp add: floor_divide_of_int_eq)
  moreover have "split_size 1000 11 0 = Inr 91" "split_size 1000 11 10 = Inr 90"
    by (simp_all add: split_size_def)
  ultimately show ?thesis
    using assms by (simp add: split_size_Inr)
qed

theorem split_size_formula_witness:
  "(0::int) \<le> 7 \<and> (1::int) \<le> 3 \<and> (0::int) \<le> 0 \<and> split_size 7 3 0 = Inr 3"
  using split_size_formula [of 7 3 0] by simp

text \<open>
  C9. A chunk index out of range: for \<open>N_parts \<ge> 0\<close>, \<open>N_chunks \<ge> 1\<close> and every
  \<open>i \<ge> N_chunks\<close>, however large, \<open>split_size\<close> raises nothing and returns exactly the
  floor \<open>N_parts div N_chunks\<close>, without the remainder's extra particle.
\<close>

theorem split_size_out_of_range:
  assumes "0 \<le> N_parts" and "1 \<le> N_chunks" and "N_chunks \<le> i"
  shows "split_size N_parts N_chunks i = Inr (N_parts div N_chunks)"
proof -
  have "N_parts mod N_chunks < N_chunks"
    using assms(2) by simp
  then have "\<not> i < N_parts mod N_chunks"
    using assms(3) by simp
  then show ?thesis
    using assms(2) by (simp add: split_size_Inr)
qed

theorem split_size_out_of_range_witness:
  "(0::int) \<le> 7 \<and> (1::int) \<le> 3 \<and> (3::int) \<le> 1000000
   \<and> split_size 7 3 1000000 = Inr 2"
  using split_size_out_of_range [of 7 3 1000000] by simp

text \<open>
  C10. \<open>split_size\<close> does not increase with the chunk index: for \<open>N_parts \<ge> 0\<close>,
  \<open>N_chunks \<ge> 1\<close> and \<open>0 \<le> i \<le> j\<close>, chunk \<open>i\<close> is at least as large as chunk \<open>j\<close>,
  and larger by at most 1.
\<close>

theorem split_size_antimono:
  assumes "0 \<le> N_parts" and "1 \<le> N_chunks" and "0 \<le> i" and "i \<le> j"
  shows "\<exists>a b. split_size N_parts N_chunks i = Inr a \<and> split_size N_parts N_chunks j = Inr b
           \<and> b \<le> a \<and> a - b \<le> 1"
  using assms by (simp add: split_size_Inr)

theorem split_size_antimono_witness:
  "(0::int) \<le> 7 \<and> (1::int) \<le> 3 \<and> (0::int) \<le> 0 \<and> (0::int) \<le> 2
   \<and> (\<exists>a b. split_size 7 3 0 = Inr a \<and> split_size 7 3 2 = Inr b \<and> b \<le> a \<and> a - b \<le> 1)"
  using split_size_antimono [of 7 3 0 2] by simp

section \<open>Properties of the energy evaluator\<close>

subsection \<open>Shapes and errors\<close>

lemma np_array_rect: "rectangular xss \<Longrightarrow> np_array xss = Inr xss"
  by (simp add: np_array_def)

lemma cpe_ok:
  "rectangular pos \<Longrightarrow> length mass = length pos \<Longrightarrow>
   compute_potential_energy pos mass G =
     Inr (foldl (\<lambda>U i. potential_row pos mass G i U) (Fin 0) [0..<length pos])"
  by (simp add: compute_potential_energy_def np_array_rect)

lemma cke_ok:
  "rectangular vel \<Longrightarrow> length mass = length vel \<Longrightarrow>
   compute_kinetic_energy vel mass =
     Inr (fmul (np_sum (concat (map (\<lambda>row. map2 fmul (map fsquare row) mass) (transpose vel))))
               (Fin (1 / 2)))"
  by (simp add: compute_kinetic_energy_def np_array_rect)

lemma cpe_mismatch:
  "rectangular pos \<Longrightarrow> length mass \<noteq> length pos \<Longrightarrow>
   compute_potential_energy pos mass G = Inl AssertionError"
  by (simp add: compute_potential_energy_def np_array_rect)

lemma cke_mismatch:
  "rectangular vel \<Longrightarrow> length mass \<noteq> length vel \<Longrightarrow>
   compute_kinetic_energy vel mass = Inl AssertionError"
  by (simp add: compute_kinetic_energy_def np_array_rect)

text \<open>
  C7. For an \<open>N \<times> d\<close> array of velocities (of positions), \<open>compute_kinetic_energy\<close>
  (\<open>compute_potential_energy\<close>) fails with the assertion on the shape of the masses
  exactly when the number of masses differs from \<open>N\<close>, and returns a value when the
  lengths agree; \<open>compute_energy\<close> fails with the same error exactly when the three
  lengths are not all equal, and returns a value when they are.
\<close>

theorem shape_mismatch_iff:
  assumes "rectangular pos" and "rectangular vel"
  shows "(compute_kinetic_energy vel mass = Inl AssertionError \<longleftrightarrow> length mass \<noteq> length vel)
       \<and> (length mass = length vel \<longrightarrow> (\<exists>K. compute_kinetic_energy vel mass = Inr K))
       \<and> (compute_potential_energy pos mass G = Inl AssertionError \<longleftrightarrow> length mass \<noteq> length pos)
       \<and> (length mass = length pos \<longrightarrow> (\<exists>U. compute_potential_energy pos mass G = Inr U))
       \<and> (compute_energy pos vel mass G = Inl AssertionError
            \<longleftrightarrow> \<not> (length pos = length vel \<and> length vel = length mass))
       \<and> (length pos = length vel \<and> length vel = length mass
            \<longrightarrow> (\<exists>E. compute_energy pos vel mass G = Inr E))"
proof -
  have k: "compute_kinetic_energy vel mass = Inl AssertionError \<longleftrightarrow> length mass \<noteq> length vel"
    using assms(2) cke_ok [of vel mass] cke_mismatch [of vel mass]
    by (cases "length mass = length vel") simp_all
  have k': "length mass = length vel \<longrightarrow> (\<exists>K. compute_kinetic_energy vel mass = Inr K)"
    using assms(2) by (simp add: cke_ok)
  have u: "compute_potential_energy pos mass G = Inl AssertionError \<longleftrightarrow> length mass \<noteq> length pos"
    using assms(1) cpe_ok [of pos mass G] cpe_mismatch [of pos mass G]
    by (cases "length mass = length pos") simp_all
  have u': "length mass = length pos \<longrightarrow> (\<exists>U. compute_potential_energy pos mass G = Inr U)"
    using assms(1) by (simp add: cpe_ok)
  have e: "compute_energy pos vel mass G = Inl AssertionError
            \<longleftrightarrow> \<not> (length pos = length vel \<and> length vel = length mass)"
  proof (cases "length mass = length pos")
    case False
    then show ?thesis
      using assms(1) by (auto simp: compute_energy_def cpe_mismatch)
  next
    case True
    show ?thesis
    proof (cases "length mass = length vel")
      case False
      then show ?thesis
        using True assms by (auto simp: compute_energy_def cpe_ok cke_mismatch)
    next
      case T2: True
      then show ?thesis
        using True assms by (simp add: compute_energy_def cpe_ok cke_ok)
    qed
  qed
  have e': "length pos = length vel \<and> length vel = length mass
            \<longrightarrow> (\<exists>E. compute_energy pos vel mass G = Inr E)"
    using assms by (simp add: compute_energy_def cpe_ok cke_ok)
  from k k' u u' e e' show ?thesis by blast
qed

theorem shape_mismatch_iff_witness:
  "rectangular [[Fin 0, Fin 0], [Fin 1, Fin 0]] \<and> rectangular [[Fin 3, Fin 4], [Fin 0, Fin 0]]
   \<and> compute_kinetic_energy [[Fin 3, Fin 4], [Fin 0, Fin 0]] [Fin 2] = Inl AssertionError
   \<and> compute_potential_energy [[Fin 0, Fin 0], [Fin 1, Fin 0]] [Fin 2] (Fin 1) = Inl AssertionError
   \<and> compute_energy [[Fin 0, Fin 0], [Fin 1, Fin 0]] [[Fin 3, Fin 4], [Fin 0, Fin 0]] [Fin 2] (Fin 1)
       = Inl AssertionError
   \<and> (\<exists>E. compute_energy [[Fin 0, Fin 0], [Fin 1, Fin 0]] [[Fin 3, Fin 4], [Fin 0, Fin 0]]
              [Fin 2, Fin 1] (Fin 1) = Inr E)"
proof -
  have r1: "rectangular [[Fin 0, Fin 0], [Fin 1, Fin 0]]"
    by (simp add: rectangular_def)
  have r2: "rectangular [[Fin 3, Fin 4], [Fin 0, Fin 0]]"
    by (simp add: rectangular_def)
  show ?thesis
    using r1 r2
      shape_mismatch_iff [OF r1 r2, of "[Fin 2]" "Fin 1"]
      shape_mismatch_iff [OF r1 r2, of "[Fin 2, Fin 1]" "Fin 1"]
    by simp
qed

subsection \<open>Total energy\<close>

text \<open>
  C6. Additivity: for positions, velocities and masses of one length \<open>N\<close> and every
  \<open>G\<close>, both \<open>compute_potential_energy\<close> and \<open>compute_kinetic_energy\<close> return a value,
  and \<open>compute_energy\<close> returns the floating-point sum of the two, potential energy
  first, with no other term.
\<close>

theorem energy_additive:
  assumes "rectangular pos" and "rectangular vel"
    and "length pos = length mass" and "length vel = length mass"
  shows "\<exists>U K. compute_potential_energy pos mass G = Inr U
             \<and> compute_kinetic_energy vel mass = Inr K
             \<and> compute_energy pos vel mass G = Inr (fadd U K)"
  using assms by (simp add: compute_energy_def cpe_ok cke_ok)

theorem energy_additive_witness:
  "rectangular [[Fin 0, Fin 0], [Fin 1, Fin 0]] \<and> rectangular [[Fin 3, Fin 4], [Fin 0, Fin 0]]
   \<and> length [[Fin 0, Fin 0], [Fin 1, Fin 0]] = length [Fin 2, Fin 1]
   \<and> length [[Fin 3, Fin 4], [Fin 0, Fin 0]] = length [Fin 2, Fin 1]
   \<and> (\<exists>U K. compute_potential_energy [[Fin 0, Fin 0], [Fin 1, Fin 0]] [Fin 2, Fin 1] (Fin 1) = Inr U
           \<and> compute_kinetic_energy [[Fin 3, Fin 4], [Fin 0, Fin 0]] [Fin 2, Fin 1] = Inr K
           \<and> compute_energy [[Fin 0, Fin 0], [Fin 1, Fin 0]] [[Fin 3, Fin 4], [Fin 0, Fin 0]]
                [Fin 2, Fin 1] (Fin 1) = Inr (fadd U K))"
proof -
  have r1: "rectangular [[Fin 0, Fin 0], [Fin 1, Fin 0]]"
    by (simp add: rectangular_def)
  have r2: "rectangular [[Fin 3, Fin 4], [Fin 0, Fin 0]]"
    by (simp add: rectangular_def)
  show ?thesis
    using r1 r2
      energy_additive [OF r1 r2, of "[Fin 2, Fin 1]" "Fin 1"]
    by simp
qed

subsection \<open>Rounding\<close>

lemma round64_zero [simp]: "round64 0 = Fin 0"
  by (simp add: round64_def)










text \<open>A tie is rounded to the value with an even significand.\<close>

lemma round64_tie_to_even: "round64 (2 ^ 53 + 1) = Fin (2 ^ 53)"
proof -
  define x :: real where "x = 2 ^ 53 + 1"
  have p: "(2::real) powr 53 = 2 ^ 53" "(2::real) powr 54 = 2 ^ 54"
    using powr_realpow [of "2::real" 53] powr_realpow [of "2::real" 54] by simp_all
  have x0: "0 < x" "\<bar>x\<bar> = x"
    by (simp_all add: x_def)
  have "2 powr of_int 53 \<le> x \<and> x < 2 powr (of_int 53 + 1)"
    using p by (simp add: x_def)
  then have l: "\<lfloor>log 2 \<bar>x\<bar>\<rfloor> = 53"
    using x0 floor_log_eq_powr_iff [of x 2 53] by simp
  have u: "ulp64 x = 2"
    by (simp add: ulp64_def l)
  have q: "x / ulp64 x = 2 ^ 52 + 1 / 2"
    by (simp only: u) (simp add: x_def)
  have f: "\<lfloor>(2::real) ^ 52 + 1 / 2\<rfloor> = 2 ^ 52"
    by (simp add: floor_eq_iff)
  have "round_even (x / ulp64 x) = 2 ^ 52"
    by (simp add: q round_even_def Let_def f del: power_numeral)
  then have "of_int (round_even (x / ulp64 x)) * ulp64 x = 2 ^ 53"
    by (simp add: u)
  then have "round64 x = Fin (2 ^ 53)"
    using x0 by (simp add: round64_def Let_def)
  then show ?thesis
    by (simp add: x_def)
qed

subsection \<open>Coincident particles\<close>

lemma fsub_nonfinite_left: "\<not> is_finite U \<Longrightarrow> \<not> is_finite (fsub U t)"
  by (cases U; cases t) (simp_all add: fsub_def)

lemma fsub_nonfinite_right: "\<not> is_finite t \<Longrightarrow> \<not> is_finite (fsub U t)"
  by (cases U; cases t) (simp_all add: fsub_def)

lemma foldl_fsub_nonfinite:
  "\<not> is_finite U \<Longrightarrow> \<not> is_finite (foldl (\<lambda>U j. fsub U (f j)) U js)"
  by (induction js arbitrary: U) (simp_all add: fsub_nonfinite_left)

lemma potential_row_nonfinite:
  "\<not> is_finite U \<Longrightarrow> \<not> is_finite (potential_row pos mass G i U)"
  unfolding potential_row_def by (rule foldl_fsub_nonfinite)

lemma potential_rows_nonfinite:
  "\<not> is_finite U \<Longrightarrow> \<not> is_finite (foldl (\<lambda>U i. potential_row pos mass G i U) U ns)"
  by (induction ns arbitrary: U) (simp_all add: potential_row_nonfinite)

lemma np_sum_zero_or_nan:
  assumes "\<forall>x \<in> set xs. x = Fin 0 \<or> x = NaN" and "a = Fin 0 \<or> a = NaN"
  shows "foldl fadd a xs = Fin 0 \<or> foldl fadd a xs = NaN"
  using assms
proof (induction xs arbitrary: a)
  case Nil
  then show ?case by simp
next
  case (Cons x xs)
  have "fadd a x = Fin 0 \<or> fadd a x = NaN"
    using Cons.prems by auto
  then show ?case
    using Cons by simp
qed

lemma fsub_self: "fsub x x = Fin 0 \<or> fsub x x = NaN"
  by (cases x) (simp_all add: fsub_def)

lemma fsquare_zero_or_nan: "y = Fin 0 \<or> y = NaN \<Longrightarrow> fsquare y = Fin 0 \<or> fsquare y = NaN"
  by (auto simp: fsquare_def)

lemma distance_self: "distance p p = Fin 0 \<or> distance p p = NaN"
proof -
  let ?xs = "map fsquare (map2 fsub p p)"
  have "\<forall>x \<in> set ?xs. x = Fin 0 \<or> x = NaN"
    using fsub_self fsquare_zero_or_nan by (auto simp: zip_same_conv_map)
  then have "np_sum ?xs = Fin 0 \<or> np_sum ?xs = NaN"
    unfolding np_sum_def by (rule np_sum_zero_or_nan) simp
  then show ?thesis
    by (auto simp: distance_def)
qed

lemma distance_self_finite:
  assumes "\<forall>x \<in> set p. is_finite x"
  shows "distance p p = Fin 0"
proof -
  have "\<forall>x \<in> set p. fsquare (fsub x x) = Fin 0"
  proof
    fix x assume "x \<in> set p"
    then have "is_finite x" using assms by simp
    then show "fsquare (fsub x x) = Fin 0"
      by (cases x) (simp_all add: fsub_def fsquare_def)
  qed
  then have "map fsquare (map2 fsub p p) = map (\<lambda>x. Fin 0) p"
    by (simp add: zip_same_conv_map)
  moreover have "foldl fadd (Fin 0) (map (\<lambda>x. Fin 0) p) = Fin 0"
    by (induction p) simp_all
  ultimately show ?thesis
    by (simp add: distance_def np_sum_def)
qed

lemma fdiv_zero_nonfinite: "r = Fin 0 \<or> r = NaN \<Longrightarrow> \<not> is_finite (fdiv x r)"
  by (cases x) (auto split: if_splits)

lemma upt_split_at:
  assumes "i \<le> j" and "j < n"
  shows "[i..<n] = [i..<j] @ j # [Suc j..<n]"
proof -
  have "[i..<n] = [i..<j + (n - j)]"
    using assms by simp
  also have "\<dots> = [i..<j] @ [j..<j + (n - j)]"
    using assms(1) by (rule upt_add_eq_append)
  also have "[j..<j + (n - j)] = j # [Suc j..<n]"
    using assms(2) by (simp add: upt_conv_Cons)
  finally show ?thesis .
qed

lemma potential_row_coincident:
  assumes "i < j" and "j < length pos" and "pos ! i = pos ! j"
  shows "\<not> is_finite (potential_row pos mass G i U)"
proof -
  let ?t = "\<lambda>j. fdiv (fmul (fmul G (mass ! i)) (mass ! j)) (distance (pos ! i) (pos ! j))"
  have split: "[Suc i..<length pos] = [Suc i..<j] @ j # [Suc j..<length pos]"
    using assms(1,2) by (simp add: upt_split_at)
  have "\<not> is_finite (?t j)"
    using assms(3) distance_self [of "pos ! j"] by (simp add: fdiv_zero_nonfinite)
  then have "\<not> is_finite (fsub (foldl (\<lambda>U j. fsub U (?t j)) U [Suc i..<j]) (?t j))"
    by (rule fsub_nonfinite_right)
  then show ?thesis
    unfolding potential_row_def split
    by (simp add: foldl_fsub_nonfinite)
qed

lemma potential_rows_coincident:
  assumes "i < j" and "j < length pos" and "pos ! i = pos ! j"
  shows "\<not> is_finite (foldl (\<lambda>U i. potential_row pos mass G i U) U [0..<length pos])"
proof -
  have "i < length pos" using assms by simp
  then have split: "[0..<length pos] = [0..<i] @ i # [Suc i..<length pos]"
    by (simp add: upt_split_at)
  show ?thesis
    unfolding split using assms
    by (simp add: potential_rows_nonfinite potential_row_coincident)
qed

text \<open>
  C8. Coincident particles are not guarded: when two particles \<open>i < j\<close> have the same
  position, the distance computed for the pair is 0 (or NaN, when a coordinate is
  not finite), the pair is not skipped, the quotient subtracted for it is an infinity
  or a NaN, and so is the value that \<open>compute_potential_energy\<close> returns; no
  exception is raised and no default is put in its place.
\<close>

theorem coincident_unguarded:
  assumes "rectangular pos" and "length mass = length pos"
    and "i < j" and "j < length pos" and "pos ! i = pos ! j"
  shows "(\<exists>U. compute_potential_energy pos mass G = Inr U \<and> \<not> is_finite U)
       \<and> (distance (pos ! i) (pos ! j) = Fin 0 \<or> distance (pos ! i) (pos ! j) = NaN)
       \<and> ((\<forall>x \<in> set (pos ! i). is_finite x) \<longrightarrow> distance (pos ! i) (pos ! j) = Fin 0)
       \<and> \<not> is_finite (fdiv (fmul (fmul G (mass ! i)) (mass ! j)) (distance (pos ! i) (pos ! j)))"
proof -
  have "\<not> is_finite (foldl (\<lambda>U i. potential_row pos mass G i U) (Fin 0) [0..<length pos])"
    using assms(3-5) by (rule potential_rows_coincident)
  then have "\<exists>U. compute_potential_energy pos mass G = Inr U \<and> \<not> is_finite U"
    using assms(1,2) by (simp add: cpe_ok)
  moreover have d: "distance (pos ! i) (pos ! j) = Fin 0 \<or> distance (pos ! i) (pos ! j) = NaN"
    using assms(5) distance_self [of "pos ! j"] by simp
  moreover have "(\<forall>x \<in> set (pos ! i). is_finite x) \<longrightarrow> distance (pos ! i) (pos ! j) = Fin 0"
    using assms(5) distance_self_finite [of "pos ! j"] by simp
  moreover have "\<not> is_finite (fdiv (fmul (fmul G (mass ! i)) (mass ! j)) (distance (pos ! i) (pos ! j)))"
    using d by (rule fdiv_zero_nonfinite)
  ultimately show ?thesis by blast
qed

theorem coincident_unguarded_witness:
  "rectangular [[Fin 1, Fin 2], [Fin 5, Fin 5], [Fin 1, Fin 2]]
   \<and> length [Fin 1, Fin 1, Fin 1] = length [[Fin 1, Fin 2], [Fin 5, Fin 5], [Fin 1, Fin 2]]
   \<and> (0::nat) < 2 \<and> 2 < length [[Fin 1, Fin 2], [Fin 5, Fin 5], [Fin 1, Fin 2]]
   \<and> [[Fin 1, Fin 2], [Fin 5, Fin 5], [Fin 1, Fin 2]] ! 0
       = [[Fin 1, Fin 2], [Fin 5, Fin 5], [Fin 1, Fin 2]] ! 2
   \<and> (\<exists>U. compute_potential_energy [[Fin 1, Fin 2], [Fin 5, Fin 5], [Fin 1, Fin 2]]
             [Fin 1, Fin 1, Fin 1] (Fin 1) = Inr U \<and> \<not> is_finite U)"
proof -
  have r: "rectangular [[Fin 1, Fin 2], [Fin 5, Fin 5], [Fin 1, Fin 2]]"
    by (simp add: rectangular_def)
  show ?thesis
    using r coincident_unguarded [OF r, of "[Fin 1, Fin 1, Fin 1]" 0 2 "Fin 1"]
    by simp
qed

subsection \<open>Kinetic energy\<close>














subsection \<open>Potential energy\<close>
















end
